theory Spec2Isabelle
  imports Main
begin

section \<open>The WARC stream parser of node-warc (lib/parsers/warcParser.js)\<close>

text \<open>
  The class \<open>WARCParser\<close> reads a WARC file line by line and drives a record
  builder. Its two collaborators, the sentinel table (\<open>./fieldIdentifiers\<close>) and the
  record builder (\<open>../warcRecordBuilder\<close>), are not part of the sources at hand: both are
  parameters of every definition taken from \<open>warcParser.js\<close>.
\<close>

subsection \<open>Data\<close>

text \<open>A line is a \<open>Buffer\<close>: a sequence of bytes, compared with \<open>Buffer.equals\<close>.\<close>

type_synonym line = string

text \<open>
  The sentinel table \<open>warcFieldIdentifiers\<close> as the parser reads it. The parser reads the
  fields \<open>begin\<close>, \<open>empty\<close>, \<open>req\<close>, \<open>res\<close>, \<open>info\<close> and \<open>mdata\<close>; the field \<open>revisit\<close> is
  the one the specification lists beside them (the parser never reads it).
\<close>

record fieldIdentifiers =
  fi_begin :: line
  fi_empty :: line
  fi_req :: line
  fi_res :: line
  fi_revisit :: line
  fi_info :: line
  fi_mdata :: line

text \<open>
  The interface of \<open>WARCRecorderBuilder\<close> as the parser calls it, over a builder state
  \<open>'b\<close>, keys \<open>'k\<close> and built records \<open>'r\<close>. Every method may change the builder's state.
  A key of \<open>None\<close> is JavaScript's \<open>undefined\<close>; so is a begin-line of \<open>None\<close>.
\<close>

record ('b, 'k, 'r) WARCRecorderBuilder =
  initReq :: "line option \<Rightarrow> line \<Rightarrow> 'b \<Rightarrow> 'k \<times> 'b"
  initRes :: "line option \<Rightarrow> line \<Rightarrow> 'b \<Rightarrow> 'k \<times> 'b"
  initRevist :: "line option \<Rightarrow> line \<Rightarrow> 'b \<Rightarrow> 'k \<times> 'b"
  initInfo :: "line option \<Rightarrow> line \<Rightarrow> 'b \<Rightarrow> 'k \<times> 'b"
  initMdata :: "line option \<Rightarrow> line \<Rightarrow> 'b \<Rightarrow> 'k \<times> 'b"
  addLineTo :: "'k option \<Rightarrow> nat \<Rightarrow> line \<Rightarrow> 'b \<Rightarrow> 'b"
  buildRecord :: "'k option \<Rightarrow> 'b \<Rightarrow> 'r \<times> 'b"
  clear :: "'b \<Rightarrow> 'b"

text \<open>The read stream made by \<open>fs.createReadStream\<close>: the path it reads and whether
  \<open>destroy\<close> was called on it.\<close>

record ReadStream =
  rs_path :: string
  rs_destroyed :: bool

text \<open>
  The fields of a \<open>WARCParser\<close>, followed by the variables \<open>lastBegin\<close> and \<open>buildKey\<close>
  that \<open>start\<close> declares for the handlers of the session it opens (\<open>None\<close> is
  \<open>undefined\<close> or \<open>null\<close>). \<open>crlfCounter\<close> is \<open>_crlfCounter.count\<close>.
\<close>

record ('b, 'k) WARCParser =
  wp :: "string option"
  readStream :: "ReadStream option"
  checkRecType :: bool
  foundType :: bool
  starting :: bool
  parsing :: bool
  crlfCounter :: nat
  builder :: 'b
  lastBegin :: "line option"
  buildKey :: "'k option"

text \<open>What a call returns (\<open>start\<close> returns \<open>undefined\<close> or \<open>false\<close>), and an \<open>Error\<close>
  object with its message: what \<open>start\<close> throws and what the transport reports.\<close>

datatype jsval = Undefined | Boolean bool

datatype exn = Error string

text \<open>
  What the parser sends out: the events \<open>record\<close>, \<open>done\<close> and \<open>error\<close> of the emitter,
  and the line written with \<open>console.log\<close>.
\<close>

datatype 'r notification =
  EmitRecord 'r
| EmitDone 'r
| EmitError exn
| ConsoleLog line

subsection \<open>The constructor\<close>

definition newWARCParser :: "string option \<Rightarrow> 'b \<Rightarrow> ('b, 'k) WARCParser" where
  "newWARCParser w b =
     \<lparr>wp = w, readStream = None, checkRecType = False, foundType = False,
      starting = True, parsing = False, crlfCounter = 0, builder = b,
      lastBegin = None, buildKey = None\<rparr>"

subsection \<open>\<open>_checkType\<close>\<close>

text \<open>
  The result is the returned key (\<open>None\<close> where the method falls off its end), what was
  logged, and the parser afterwards. The third test reads \<open>_foundType\<close> again without
  assigning it, as the source does.
\<close>

definition checkType ::
  "fieldIdentifiers \<Rightarrow> ('b, 'k, 'r) WARCRecorderBuilder \<Rightarrow> line \<Rightarrow> line option \<Rightarrow>
   ('b, 'k) WARCParser \<Rightarrow> 'k option \<times> 'r notification list \<times> ('b, 'k) WARCParser" where
  "checkType F B ln lb p =
     (let p1 = p\<lparr>checkRecType := False\<rparr>;
          p2 = p1\<lparr>foundType := False\<rparr>;
          p3 = p2\<lparr>foundType := (fi_req F = ln)\<rparr>
      in if foundType p3 then
           (case initReq B lb ln (builder p3) of (k, b) \<Rightarrow> (Some k, [], p3\<lparr>builder := b\<rparr>))
         else
           (let p4 = p3\<lparr>foundType := (fi_res F = ln)\<rparr>
            in if foundType p4 then
                 (case initRes B lb ln (builder p4) of (k, b) \<Rightarrow> (Some k, [], p4\<lparr>builder := b\<rparr>))
               else if foundType p4 then
                 (case initRevist B lb ln (builder p4) of (k, b) \<Rightarrow> (Some k, [], p4\<lparr>builder := b\<rparr>))
               else
                 (let p5 = p4\<lparr>foundType := (fi_info F = ln)\<rparr>
                  in if foundType p5 then
                       (case initInfo B lb ln (builder p5) of
                          (k, b) \<Rightarrow> (Some k, [], p5\<lparr>builder := b\<rparr>))
                     else
                       (let p6 = p5\<lparr>foundType := (fi_mdata F = ln)\<rparr>
                        in if foundType p6 then
                             (case initMdata B lb ln (builder p6) of
                                (k, b) \<Rightarrow> (Some k, [], p6\<lparr>builder := b\<rparr>))
                           else (None, [ConsoleLog ln], p6)))))"

subsection \<open>The handlers of a session\<close>

text \<open>The handler of \<open>data\<close>: one line of the file.\<close>

definition onData ::
  "fieldIdentifiers \<Rightarrow> ('b, 'k, 'r) WARCRecorderBuilder \<Rightarrow> line \<Rightarrow>
   ('b, 'k) WARCParser \<Rightarrow> 'r notification list \<times> ('b, 'k) WARCParser" where
  "onData F B ln p =
     (if fi_begin F = ln then
        (case (if \<not> starting p then
                 (case buildRecord B (buildKey p) (builder p) of
                    (r, b) \<Rightarrow> ([EmitRecord r], p\<lparr>builder := b\<rparr>))
               else ([], p\<lparr>starting := False\<rparr>)) of
           (evs, p1) \<Rightarrow> (evs, p1\<lparr>crlfCounter := 0, checkRecType := True, lastBegin := Some ln\<rparr>))
      else
        (let isEmptyLine = (fi_empty F = ln)
         in if checkRecType p \<and> \<not> isEmptyLine then
              (case checkType F B ln (lastBegin p) p of
                 (k, evs, p1) \<Rightarrow> (evs, p1\<lparr>buildKey := k\<rparr>))
            else if isEmptyLine then ([], p\<lparr>crlfCounter := crlfCounter p + 1\<rparr>)
            else ([], p\<lparr>builder := addLineTo B (buildKey p) (crlfCounter p) ln (builder p)\<rparr>)))"

text \<open>The handler of \<open>error\<close>.\<close>

definition onError :: "exn \<Rightarrow> ('b, 'k) WARCParser \<Rightarrow> 'r notification list \<times> ('b, 'k) WARCParser" where
  "onError e p = ([EmitError e], p)"

text \<open>
  The handler of \<open>end\<close>. It is registered by \<open>start\<close> after \<open>_readStream\<close> was assigned, and
  nothing assigns \<open>_readStream\<close> but \<open>start\<close>, so the stream it destroys is there.
\<close>

definition onEnd ::
  "('b, 'k, 'r) WARCRecorderBuilder \<Rightarrow> ('b, 'k) WARCParser \<Rightarrow>
   'r notification list \<times> ('b, 'k) WARCParser" where
  "onEnd B p =
     (let p1 = p\<lparr>parsing := False\<rparr>
      in case buildRecord B (buildKey p1) (builder p1) of
           (r, b) \<Rightarrow>
             ([EmitDone r],
              p1\<lparr>builder := clear B b,
                 readStream := map_option (\<lambda>s. s\<lparr>rs_destroyed := True\<rparr>) (readStream p1)\<rparr>))"

subsection \<open>\<open>start\<close> and \<open>parseWARC\<close>\<close>

text \<open>
  The result is what the call returns or throws, and the parser afterwards. The branch
  that opens a session has no \<open>return\<close>: the call returns \<open>undefined\<close>. The read stream is
  opened on the path after \<open>untildify\<close>, a function of another package; the model keeps
  the path as configured.
\<close>

definition start :: "('b, 'k) WARCParser \<Rightarrow> (exn + jsval) \<times> ('b, 'k) WARCParser" where
  "start p =
     (if \<not> parsing p then
        (case wp p of
           None \<Rightarrow> (Inl (Error ''The path to the WARC file is undefined''), p)
         | Some w \<Rightarrow>
             (Inr Undefined,
              p\<lparr>starting := True, parsing := True, lastBegin := None, buildKey := None,
                readStream := Some \<lparr>rs_path = w, rs_destroyed = False\<rparr>\<rparr>))
      else (Inr (Boolean False), p))"

text \<open>\<open>wp || this._wp\<close>: the argument unless it is \<open>undefined\<close>, \<open>null\<close> or the empty string.\<close>

definition truthy :: "string option \<Rightarrow> bool" where
  "truthy w = (case w of None \<Rightarrow> False | Some s \<Rightarrow> s \<noteq> [])"

definition parseWARC ::
  "string option \<Rightarrow> ('b, 'k) WARCParser \<Rightarrow> (exn + jsval) \<times> ('b, 'k) WARCParser" where
  "parseWARC w p =
     start (if \<not> parsing p then p\<lparr>wp := (if truthy w then w else wp p)\<rparr> else p)"

subsection \<open>Sessions\<close>

text \<open>The lines of the file, delivered in order to the handler of \<open>data\<close>.\<close>

fun feed ::
  "fieldIdentifiers \<Rightarrow> ('b, 'k, 'r) WARCRecorderBuilder \<Rightarrow> line list \<Rightarrow>
   ('b, 'k) WARCParser \<Rightarrow> 'r notification list \<times> ('b, 'k) WARCParser" where
  "feed F B [] p = ([], p)"
| "feed F B (ln # lns) p =
     (case onData F B ln p of
        (e1, p1) \<Rightarrow> (case feed F B lns p1 of (e2, p2) \<Rightarrow> (e1 @ e2, p2)))"

text \<open>
  A whole session: \<open>start\<close>, then every line, then the end of the stream. Where \<open>start\<close>
  throws or returns \<open>false\<close> nothing is read.
\<close>

definition session ::
  "fieldIdentifiers \<Rightarrow> ('b, 'k, 'r) WARCRecorderBuilder \<Rightarrow> line list \<Rightarrow>
   ('b, 'k) WARCParser \<Rightarrow>
   (exn + jsval) \<times> 'r notification list \<times> ('b, 'k) WARCParser" where
  "session F B lns p =
     (case start p of
        (Inr Undefined, p0) \<Rightarrow>
          (case feed F B lns p0 of
             (e1, p1) \<Rightarrow> (case onEnd B p1 of (e2, p2) \<Rightarrow> (Inr Undefined, e1 @ e2, p2)))
      | (res, p') \<Rightarrow> (res, [], p'))"

subsection \<open>The states a parser can be in\<close>

text \<open>
  A parser is made by the constructor (with any builder state) and changed only by its two
  methods and, while a session is open, by the handlers of the session.
\<close>

inductive reachable ::
  "fieldIdentifiers \<Rightarrow> ('b, 'k, 'r) WARCRecorderBuilder \<Rightarrow> ('b, 'k) WARCParser \<Rightarrow> bool"
  for F :: fieldIdentifiers and B :: "('b, 'k, 'r) WARCRecorderBuilder" where
  constructed: "reachable F B (newWARCParser w b)"
| called_start: "reachable F B p \<Longrightarrow> reachable F B (snd (start p))"
| called_parseWARC: "reachable F B p \<Longrightarrow> reachable F B (snd (parseWARC w p))"
| got_data: "reachable F B p \<Longrightarrow> parsing p \<Longrightarrow> reachable F B (snd (onData F B ln p))"
| got_error: "reachable F B p \<Longrightarrow> parsing p \<Longrightarrow>
     reachable F B (snd (onError e p :: 'r notification list \<times> ('b, 'k) WARCParser))"
| got_end: "reachable F B p \<Longrightarrow> parsing p \<Longrightarrow> reachable F B (snd (onEnd B p))"

subsection \<open>Reading a trace\<close>

text \<open>The notifications that carry a record: \<open>record\<close> and \<open>done\<close>.\<close>

fun carriesRecord :: "'r notification \<Rightarrow> bool" where
  "carriesRecord (EmitRecord r) = True"
| "carriesRecord (EmitDone r) = True"
| "carriesRecord (EmitError e) = False"
| "carriesRecord (ConsoleLog ln) = False"

fun isError :: "'r notification \<Rightarrow> bool" where
  "isError (EmitError e) = True"
| "isError (EmitRecord r) = False"
| "isError (EmitDone r) = False"
| "isError (ConsoleLog ln) = False"

text \<open>The file made of the given records: each is the begin line followed by its lines.\<close>

definition fileOf :: "fieldIdentifiers \<Rightarrow> line list list \<Rightarrow> line list" where
  "fileOf F recs = concat (map (\<lambda>body. fi_begin F # body) recs)"

text \<open>What \<open>buildRecord\<close> gives for the record in progress.\<close>

definition built :: "('b, 'k, 'r) WARCRecorderBuilder \<Rightarrow> ('b, 'k) WARCParser \<Rightarrow> 'r" where
  "built B p = fst (buildRecord B (buildKey p) (builder p))"

text \<open>
  What the handler of \<open>data\<close> does with a line once the type was looked at: count a blank
  line, hand anything else to the builder.
\<close>

definition accumulate ::
  "fieldIdentifiers \<Rightarrow> ('b, 'k, 'r) WARCRecorderBuilder \<Rightarrow> line \<Rightarrow>
   ('b, 'k) WARCParser \<Rightarrow> ('b, 'k) WARCParser" where
  "accumulate F B ln p =
     (if fi_empty F = ln then p\<lparr>crlfCounter := crlfCounter p + 1\<rparr>
      else p\<lparr>builder := addLineTo B (buildKey p) (crlfCounter p) ln (builder p)\<rparr>)"

text \<open>
  Two parsers agree on what a session reads before it writes: the type-check flag, the
  count of blank lines, the builder, and the three variables \<open>start\<close> sets anew.
\<close>

definition sameSessionState :: "('b, 'k) WARCParser \<Rightarrow> ('b, 'k) WARCParser \<Rightarrow> bool" where
  "sameSessionState p q \<longleftrightarrow>
     checkRecType p = checkRecType q \<and> crlfCounter p = crlfCounter q \<and>
     builder p = builder q \<and> starting p = starting q \<and>
     lastBegin p = lastBegin q \<and> buildKey p = buildKey q"

text \<open>The first line of the file is the begin line, as in every WARC file.\<close>

definition startsWithBegin :: "fieldIdentifiers \<Rightarrow> line list \<Rightarrow> bool" where
  "startsWithBegin F lns = (case lns of [] \<Rightarrow> False | ln # rest \<Rightarrow> fi_begin F = ln)"

subsection \<open>The collaborators, from the specification\<close>

text \<open>
  Modelled from the spec: the sentinel table \<open>lib/parsers/fieldIdentifiers\<close>, which is not
  among the sources. The specification gives its entries as the exact bytes of the
  \<open>WARC/1.0\<close> line, of a blank line and of the \<open>WARC-Type\<close> line of each of the five record
  types; the transport cuts the file at line feeds, so each line keeps its carriage return.
\<close>

definition CR :: char where
  "CR = CHR 0x0D"

definition warcFieldIdentifiers :: fieldIdentifiers where
  "warcFieldIdentifiers =
     \<lparr>fi_begin = ''WARC/1.0'' @ [CR],
      fi_empty = [CR],
      fi_req = ''WARC-Type: request'' @ [CR],
      fi_res = ''WARC-Type: response'' @ [CR],
      fi_revisit = ''WARC-Type: revisit'' @ [CR],
      fi_info = ''WARC-Type: warcinfo'' @ [CR],
      fi_mdata = ''WARC-Type: metadata'' @ [CR]\<rparr>"

text \<open>
  Modelled from the spec: the record model and the record builder of
  \<open>lib/warcRecordBuilder\<close>, which is not among the sources. A record has a type tag, its
  header fields in insertion order and its payload bytes. The builder keeps, for each
  record type, the header lines and the payload lines of the record in progress; the key
  it hands out is the record type.
\<close>

datatype recordType = Request | Response | Revisit | Info | Metadata | Unknown

record RecordModel =
  rm_type :: recordType
  rm_headers :: "(string \<times> string) list"
  rm_payload :: string

type_synonym builderState = "recordType \<Rightarrow> (line list \<times> line list) option"

definition emptyRecord :: RecordModel where
  "emptyRecord = \<lparr>rm_type = Unknown, rm_headers = [], rm_payload = []\<rparr>"

definition noRecords :: builderState where
  "noRecords t = None"

definition isSpace :: "char \<Rightarrow> bool" where
  "isSpace c = (c \<in> set [CHR '' '', CHR 0x09, CHR 0x0A, CHR 0x0B, CHR 0x0C, CHR 0x0D])"

definition trim :: "string \<Rightarrow> string" where
  "trim s = rev (dropWhile isSpace (rev (dropWhile isSpace s)))"

text \<open>A header line is split at its first colon; a line without a colon gives nothing.\<close>

definition headerField :: "line \<Rightarrow> (string \<times> string) option" where
  "headerField ln =
     (case dropWhile (\<lambda>c. c \<noteq> CHR '':'') ln of
        [] \<Rightarrow> None
      | c # v \<Rightarrow> Some (trim (takeWhile (\<lambda>c. c \<noteq> CHR '':'') ln), trim v))"

fun putField :: "string \<times> string \<Rightarrow> (string \<times> string) list \<Rightarrow> (string \<times> string) list" where
  "putField (n, v) [] = [(n, v)]"
| "putField (n, v) ((n', v') # hs) =
     (if n' = n then (n', v) # hs else (n', v') # putField (n, v) hs)"

fun parseHeaders :: "line list \<Rightarrow> (string \<times> string) list \<Rightarrow> (string \<times> string) list" where
  "parseHeaders [] hs = hs"
| "parseHeaders (ln # lns) hs =
     parseHeaders lns (case headerField ln of None \<Rightarrow> hs | Some f \<Rightarrow> putField f hs)"

definition specInit ::
  "recordType \<Rightarrow> line option \<Rightarrow> line \<Rightarrow> builderState \<Rightarrow> recordType \<times> builderState" where
  "specInit t lb ln b = (t, b(t := Some ((case lb of None \<Rightarrow> [] | Some bg \<Rightarrow> [bg]) @ [ln], [])))"

text \<open>
  A line goes to the headers while fewer blank lines were seen than the threshold of the
  record's type, and to the payload afterwards. The specification gives no numbers for
  the thresholds: they are the parameter \<open>thr\<close>. An unknown key changes nothing and builds
  the empty record.
\<close>

definition specAddLineTo ::
  "(recordType \<Rightarrow> nat) \<Rightarrow> recordType option \<Rightarrow> nat \<Rightarrow> line \<Rightarrow> builderState \<Rightarrow> builderState" where
  "specAddLineTo thr key n ln b =
     (case key of
        None \<Rightarrow> b
      | Some t \<Rightarrow>
          (case b t of
             None \<Rightarrow> b
           | Some (hs, ps) \<Rightarrow>
               (if n < thr t then b(t := Some (hs @ [ln], ps)) else b(t := Some (hs, ps @ [ln])))))"

definition specBuildRecord :: "recordType option \<Rightarrow> builderState \<Rightarrow> RecordModel \<times> builderState" where
  "specBuildRecord key b =
     (case key of
        None \<Rightarrow> (emptyRecord, b)
      | Some t \<Rightarrow>
          (case b t of
             None \<Rightarrow> (emptyRecord, b)
           | Some (hs, ps) \<Rightarrow>
               (\<lparr>rm_type = t, rm_headers = parseHeaders hs [], rm_payload = concat ps\<rparr>, b)))"

definition specBuilder ::
  "(recordType \<Rightarrow> nat) \<Rightarrow> (builderState, recordType, RecordModel) WARCRecorderBuilder" where
  "specBuilder thr =
     \<lparr>initReq = specInit Request, initRes = specInit Response, initRevist = specInit Revisit,
      initInfo = specInit Info, initMdata = specInit Metadata,
      addLineTo = specAddLineTo thr, buildRecord = specBuildRecord,
      clear = (\<lambda>b. noRecords)\<rparr>"

text \<open>
  Sample thresholds for the examples below (one blank line ends the headers of a
  \<open>warcinfo\<close> or \<open>metadata\<close> record, two those of the others), and the builder with them.
\<close>

fun exampleThresholds :: "recordType \<Rightarrow> nat" where
  "exampleThresholds Info = 1"
| "exampleThresholds Metadata = 1"
| "exampleThresholds t = 2"

definition exampleBuilder :: "(builderState, recordType, RecordModel) WARCRecorderBuilder" where
  "exampleBuilder = specBuilder exampleThresholds"

text \<open>A parser with a path, as the constructor makes it, on the builder of the specification.\<close>

definition freshParser :: "(builderState, recordType) WARCParser" where
  "freshParser = newWARCParser (Some ''a.warc'') noRecords"

text \<open>Two more parsers: one made for another file, one made without a path.\<close>

definition otherParser :: "(builderState, recordType) WARCParser" where
  "otherParser = newWARCParser (Some ''b.warc'') noRecords"

definition unconfiguredParser :: "(builderState, recordType) WARCParser" where
  "unconfiguredParser = newWARCParser None noRecords"

text \<open>
  A file of two records, a \<open>warcinfo\<close> and a \<open>metadata\<close> record with one header field
  each, and some lines to read.
\<close>

definition infoLines :: "line list" where
  "infoLines = [fi_info warcFieldIdentifiers, ''a: b'' @ [CR]]"

definition mdataLines :: "line list" where
  "mdataLines = [fi_mdata warcFieldIdentifiers, ''c: d'' @ [CR]]"

definition exampleRecords :: "line list list" where
  "exampleRecords = [infoLines, mdataLines]"

definition junkLine :: line where
  "junkLine = ''junk'' @ [CR]"

text \<open>
  The parser made for the other file, after a whole session on a file that ends with a
  begin line and a blank line: the session leaves the type-check flag set and the count of
  blank lines at 2.
\<close>

definition usedParser :: "(builderState, recordType) WARCParser" where
  "usedParser =
     snd (snd (session warcFieldIdentifiers exampleBuilder
                 (fi_begin warcFieldIdentifiers # infoLines @
                  [fi_empty warcFieldIdentifiers, fi_empty warcFieldIdentifiers,
                   fi_begin warcFieldIdentifiers, fi_empty warcFieldIdentifiers,
                   fi_empty warcFieldIdentifiers])
                 otherParser))"

text \<open>
  Lines that do not start with the begin line, the lines of a \<open>warcinfo\<close> record and
  then a begin line, and \<open>freshParser\<close> after a whole session on them.
\<close>

definition headlessLines :: "line list" where
  "headlessLines = infoLines @ [fi_begin warcFieldIdentifiers]"

definition afterHeadless :: "(builderState, recordType) WARCParser" where
  "afterHeadless =
     snd (snd (session warcFieldIdentifiers exampleBuilder headlessLines freshParser))"

text \<open>
  Three states of a session of \<open>freshParser\<close>: after the first begin line; after a
  \<open>request\<close> record and the begin line of the next record; after the first lines of a
  \<open>warcinfo\<close> record.
\<close>

definition awaitingFirstType :: "(builderState, recordType) WARCParser" where
  "awaitingFirstType =
     snd (feed warcFieldIdentifiers exampleBuilder [fi_begin warcFieldIdentifiers]
            (snd (start freshParser)))"

definition awaitingSecondType :: "(builderState, recordType) WARCParser" where
  "awaitingSecondType =
     snd (feed warcFieldIdentifiers exampleBuilder
            [fi_begin warcFieldIdentifiers, fi_req warcFieldIdentifiers, ''Host: a'' @ [CR],
             fi_begin warcFieldIdentifiers]
            (snd (start freshParser)))"

definition midSession :: "(builderState, recordType) WARCParser" where
  "midSession =
     snd (feed warcFieldIdentifiers exampleBuilder (fi_begin warcFieldIdentifiers # infoLines)
            (snd (start freshParser)))"

section \<open>Properties\<close>

subsection \<open>Unfolding the examples\<close>

lemmas eval_defs =
  session_def start_def parseWARC_def truthy_def freshParser_def newWARCParser_def
  onData_def checkType_def onEnd_def onError_def fileOf_def exampleRecords_def infoLines_def
  mdataLines_def junkLine_def midSession_def warcFieldIdentifiers_def CR_def
  exampleBuilder_def specBuilder_def specInit_def specAddLineTo_def specBuildRecord_def
  headerField_def trim_def isSpace_def built_def Let_def noRecords_def emptyRecord_def

subsection \<open>What each step does\<close>

lemma checkType_unmatched:
  "fi_req F \<noteq> ln \<Longrightarrow> fi_res F \<noteq> ln \<Longrightarrow> fi_info F \<noteq> ln \<Longrightarrow> fi_mdata F \<noteq> ln \<Longrightarrow>
   checkType F B ln lb p = (None, [ConsoleLog ln], p\<lparr>checkRecType := False, foundType := False\<rparr>)"
  by (simp add: checkType_def)

lemma checkType_req:
  "fi_req F = ln \<Longrightarrow>
   checkType F B ln lb p =
     (Some (fst (initReq B lb ln (builder p))), [],
      p\<lparr>checkRecType := False, foundType := True, builder := snd (initReq B lb ln (builder p))\<rparr>)"
  by (simp add: checkType_def split: prod.splits)

lemma checkType_res:
  "fi_req F \<noteq> ln \<Longrightarrow> fi_res F = ln \<Longrightarrow>
   checkType F B ln lb p =
     (Some (fst (initRes B lb ln (builder p))), [],
      p\<lparr>checkRecType := False, foundType := True, builder := snd (initRes B lb ln (builder p))\<rparr>)"
  by (simp add: checkType_def split: prod.splits)

lemma checkType_info:
  "fi_req F \<noteq> ln \<Longrightarrow> fi_res F \<noteq> ln \<Longrightarrow> fi_info F = ln \<Longrightarrow>
   checkType F B ln lb p =
     (Some (fst (initInfo B lb ln (builder p))), [],
      p\<lparr>checkRecType := False, foundType := True, builder := snd (initInfo B lb ln (builder p))\<rparr>)"
  by (simp add: checkType_def split: prod.splits)

lemma checkType_mdata:
  "fi_req F \<noteq> ln \<Longrightarrow> fi_res F \<noteq> ln \<Longrightarrow> fi_info F \<noteq> ln \<Longrightarrow> fi_mdata F = ln \<Longrightarrow>
   checkType F B ln lb p =
     (Some (fst (initMdata B lb ln (builder p))), [],
      p\<lparr>checkRecType := False, foundType := True, builder := snd (initMdata B lb ln (builder p))\<rparr>)"
  by (simp add: checkType_def split: prod.splits)

lemma checkType_frame:
  "checkType F B ln lb p = (k, evs, q) \<Longrightarrow>
   \<not> checkRecType q \<and> starting q = starting p \<and> parsing q = parsing p \<and> wp q = wp p \<and>
   readStream q = readStream p \<and> crlfCounter q = crlfCounter p \<and> lastBegin q = lastBegin p \<and>
   buildKey q = buildKey p \<and> (evs = [] \<or> evs = [ConsoleLog ln])"
  by (auto simp: checkType_def Let_def split: if_splits prod.splits)

lemma onData_begin:
  "onData F B (fi_begin F) p =
     (if starting p then
        ([], p\<lparr>starting := False, crlfCounter := 0, checkRecType := True,
                lastBegin := Some (fi_begin F)\<rparr>)
      else
        ([EmitRecord (built B p)],
         p\<lparr>builder := snd (buildRecord B (buildKey p) (builder p)), crlfCounter := 0,
           checkRecType := True, lastBegin := Some (fi_begin F)\<rparr>))"
  by (simp add: onData_def built_def split: prod.splits)

lemma onData_blank:
  "fi_begin F \<noteq> ln \<Longrightarrow> fi_empty F = ln \<Longrightarrow>
   onData F B ln p = ([], p\<lparr>crlfCounter := crlfCounter p + 1\<rparr>)"
  by (simp add: onData_def)

lemma onData_typeLine:
  "fi_begin F \<noteq> ln \<Longrightarrow> fi_empty F \<noteq> ln \<Longrightarrow> checkRecType p \<Longrightarrow>
   onData F B ln p =
     (case checkType F B ln (lastBegin p) p of (k, evs, p1) \<Rightarrow> (evs, p1\<lparr>buildKey := k\<rparr>))"
  by (simp add: onData_def)

lemma onData_accumulate:
  "fi_begin F \<noteq> ln \<Longrightarrow> \<not> checkRecType p \<Longrightarrow> onData F B ln p = ([], accumulate F B ln p)"
  by (simp add: onData_def accumulate_def)

lemma onData_other_frame:
  assumes "fi_begin F \<noteq> ln" and "onData F B ln p = (evs, q)"
  shows "starting q = starting p \<and> parsing q = parsing p \<and> wp q = wp p \<and>
         readStream q = readStream p \<and> (evs = [] \<or> evs = [ConsoleLog ln])"
proof (cases "checkRecType p \<and> fi_empty F \<noteq> ln")
  case True
  obtain k es p1 where c: "checkType F B ln (lastBegin p) p = (k, es, p1)"
    by (cases "checkType F B ln (lastBegin p) p") auto
  from assms True c have "evs = es" and "q = p1\<lparr>buildKey := k\<rparr>"
    by (auto simp: onData_def)
  with checkType_frame [OF c] show ?thesis by auto
next
  case False
  with assms show ?thesis by (auto simp: onData_def split: if_splits)
qed

lemma feed_append:
  "feed F B (xs @ ys) p =
     (fst (feed F B xs p) @ fst (feed F B ys (snd (feed F B xs p))),
      snd (feed F B ys (snd (feed F B xs p))))"
  by (induction xs arbitrary: p) (auto split: prod.splits)

lemma feed_body:
  "fi_begin F \<notin> set body \<Longrightarrow>
   filter carriesRecord (fst (feed F B body p)) = [] \<and>
   filter isError (fst (feed F B body p)) = [] \<and>
   starting (snd (feed F B body p)) = starting p \<and>
   parsing (snd (feed F B body p)) = parsing p"
proof (induction body arbitrary: p)
  case Nil
  then show ?case by simp
next
  case (Cons ln body)
  obtain evs q where o: "onData F B ln p = (evs, q)"
    by (cases "onData F B ln p") auto
  from Cons.prems have nb: "fi_begin F \<noteq> ln" and rest: "fi_begin F \<notin> set body" by auto
  from onData_other_frame [OF nb o] Cons.IH [OF rest, of q] o
  show ?case by (auto split: prod.splits)
qed

lemma feed_starting:
  "starting (snd (feed F B lns p)) = (starting p \<and> fi_begin F \<notin> set lns)"
proof (induction lns arbitrary: p)
  case Nil
  then show ?case by simp
next
  case (Cons ln lns)
  show ?case
  proof (cases "fi_begin F = ln")
    case True
    then have "starting (snd (onData F B ln p)) = False"
      using onData_begin [of F B p] by (auto split: if_splits)
    with True Cons.IH [of "snd (onData F B ln p)"] show ?thesis
      by (auto split: prod.splits)
  next
    case False
    obtain evs q where o: "onData F B ln p = (evs, q)"
      by (cases "onData F B ln p") auto
    from onData_other_frame [OF False o] Cons.IH [of q] o False show ?thesis
      by (auto split: prod.splits)
  qed
qed

lemma start_opens:
  "\<not> parsing p \<Longrightarrow> wp p = Some w \<Longrightarrow>
   start p = (Inr Undefined,
              p\<lparr>starting := True, parsing := True, lastBegin := None, buildKey := None,
                readStream := Some \<lparr>rs_path = w, rs_destroyed = False\<rparr>\<rparr>)"
  by (simp add: start_def)

lemma start_Undefined_iff: "fst (start p) = Inr Undefined \<longleftrightarrow> \<not> parsing p \<and> wp p \<noteq> None"
  by (auto simp: start_def split: option.splits)

lemma feed_record:
  "fi_begin F \<notin> set body \<Longrightarrow>
   filter carriesRecord (fst (feed F B (fi_begin F # body) p)) =
     (if starting p then [] else [EmitRecord (built B p)]) \<and>
   \<not> starting (snd (feed F B (fi_begin F # body) p))"
  using feed_body [of F body B "snd (onData F B (fi_begin F) p)"]
    feed_starting [of F B "fi_begin F # body" p]
  by (auto simp: onData_begin split: prod.splits)

lemma fileOf_snoc: "fileOf F (recs @ [body]) = fileOf F recs @ (fi_begin F # body)"
  by (simp add: fileOf_def)

lemma feed_fileOf_starting:
  assumes "recs \<noteq> []"
  shows "\<not> starting (snd (feed F B (fileOf F recs) p))"
proof (cases recs)
  case Nil
  with assms show ?thesis by simp
next
  case (Cons body more)
  then have "fi_begin F \<in> set (fileOf F recs)" by (simp add: fileOf_def)
  then show ?thesis by (simp add: feed_starting)
qed

lemma feed_fileOf_records:
  assumes "\<forall>body \<in> set recs. fi_begin F \<notin> set body" and "starting p"
  shows "filter carriesRecord (fst (feed F B (fileOf F recs) p)) =
           map (\<lambda>i. EmitRecord (built B (snd (feed F B (fileOf F (take i recs)) p))))
               [1..<length recs]"
  using assms(1)
proof (induction recs rule: rev_induct)
  case Nil
  then show ?case by (simp add: fileOf_def)
next
  case (snoc body recs)
  let ?q = "snd (feed F B (fileOf F recs) p)"
  from snoc.prems have nb: "fi_begin F \<notin> set body"
    and old: "\<forall>b \<in> set recs. fi_begin F \<notin> set b" by auto
  have ih: "filter carriesRecord (fst (feed F B (fileOf F recs) p)) =
              map (\<lambda>i. EmitRecord (built B (snd (feed F B (fileOf F (take i recs)) p))))
                  [1..<length recs]"
    using snoc.IH [OF old] .
  have same: "map (\<lambda>i. EmitRecord (built B (snd (feed F B (fileOf F (take i (recs @ [body]))) p))))
                  [1..<length recs] =
              map (\<lambda>i. EmitRecord (built B (snd (feed F B (fileOf F (take i recs)) p))))
                  [1..<length recs]"
    by (rule map_cong) auto
  show ?case
  proof (cases "recs = []")
    case True
    with feed_record [OF nb, of B p] assms(2) show ?thesis
      by (simp add: fileOf_def)
  next
    case False
    then have ns: "\<not> starting ?q" by (rule feed_fileOf_starting)
    have up: "[1..<length (recs @ [body])] = [1..<length recs] @ [length recs]"
      using False by (cases recs) auto
    from feed_record [OF nb, of B ?q] ns
    have last: "filter carriesRecord (fst (feed F B (fi_begin F # body) ?q)) =
                  [EmitRecord (built B ?q)]" by simp
    show ?thesis
      unfolding fileOf_snoc feed_append up
      using ih last same by simp
  qed
qed

lemma onEnd_events: "fst (onEnd B p) = [EmitDone (built B p)]"
  by (simp add: onEnd_def built_def split: prod.splits)

lemma session_opened:
  "fst (start p) = Inr Undefined \<Longrightarrow>
   session F B lns p =
     (Inr Undefined,
      fst (feed F B lns (snd (start p))) @ [EmitDone (built B (snd (feed F B lns (snd (start p)))))],
      snd (onEnd B (snd (feed F B lns (snd (start p))))))"
  using onEnd_events [of B "snd (feed F B lns (snd (start p)))"]
  by (cases "start p") (auto simp: session_def split: prod.splits)

lemma reachable_path: "reachable F B p \<Longrightarrow> parsing p \<Longrightarrow> wp p \<noteq> None"
proof (induction rule: reachable.induct)
  case (constructed w b)
  then show ?case by (simp add: newWARCParser_def)
next
  case (called_start p)
  then show ?case by (auto simp: start_def split: if_splits option.splits)
next
  case (called_parseWARC p w)
  then show ?case by (auto simp: parseWARC_def start_def split: if_splits option.splits)
next
  case (got_data p ln)
  obtain evs q where o: "onData F B ln p = (evs, q)"
    by (cases "onData F B ln p") auto
  show ?case
  proof (cases "fi_begin F = ln")
    case True
    with got_data show ?thesis using onData_begin [of F B p] by (auto split: if_splits)
  next
    case False
    from onData_other_frame [OF False o] got_data o show ?thesis by auto
  qed
next
  case (got_error p e)
  then show ?case by (simp add: onError_def)
next
  case (got_end p)
  then show ?case by (simp add: onEnd_def split: prod.splits)
qed

lemma checkType_same:
  assumes "sameSessionState p q"
  shows "fst (checkType F B ln lb p) = fst (checkType F B ln lb q) \<and>
         fst (snd (checkType F B ln lb p)) = fst (snd (checkType F B ln lb q)) \<and>
         sameSessionState (snd (snd (checkType F B ln lb p))) (snd (snd (checkType F B ln lb q)))"
  using assms by (simp add: checkType_def sameSessionState_def Let_def split: prod.splits)

lemma onData_same:
  assumes "sameSessionState p q"
  shows "fst (onData F B ln p) = fst (onData F B ln q) \<and>
         sameSessionState (snd (onData F B ln p)) (snd (onData F B ln q))"
proof (cases "fi_begin F \<noteq> ln \<and> checkRecType p \<and> fi_empty F \<noteq> ln")
  case True
  with assms have c: "checkRecType q" and lb: "lastBegin q = lastBegin p"
    by (auto simp: sameSessionState_def)
  from checkType_same [OF assms, of F B ln "lastBegin p"] True c lb show ?thesis
    by (auto simp: onData_def sameSessionState_def split: prod.splits)
next
  case False
  with assms show ?thesis
    by (auto simp: onData_def sameSessionState_def Let_def split: prod.splits if_splits)
qed

lemma feed_same:
  "sameSessionState p q \<Longrightarrow>
   fst (feed F B lns p) = fst (feed F B lns q) \<and>
   sameSessionState (snd (feed F B lns p)) (snd (feed F B lns q))"
proof (induction lns arbitrary: p q)
  case Nil
  then show ?case by simp
next
  case (Cons ln lns)
  from onData_same [OF Cons.prems, of F B ln]
  have e: "fst (onData F B ln p) = fst (onData F B ln q)"
    and s: "sameSessionState (snd (onData F B ln p)) (snd (onData F B ln q))" by auto
  from Cons.IH [OF s] e show ?case by (auto split: prod.splits)
qed

lemma accumulate_frame:
  "checkRecType (accumulate F B x p) = checkRecType p \<and>
   buildKey (accumulate F B x p) = buildKey p \<and>
   starting (accumulate F B x p) = starting p \<and>
   parsing (accumulate F B x p) = parsing p"
  by (simp add: accumulate_def)

lemma foldl_accumulate_frame:
  "checkRecType (foldl (\<lambda>s x. accumulate F B x s) p lns) = checkRecType p \<and>
   buildKey (foldl (\<lambda>s x. accumulate F B x s) p lns) = buildKey p \<and>
   starting (foldl (\<lambda>s x. accumulate F B x s) p lns) = starting p \<and>
   parsing (foldl (\<lambda>s x. accumulate F B x s) p lns) = parsing p"
  by (induction lns arbitrary: p) (simp_all add: accumulate_frame)

lemma feed_accumulate:
  "fi_begin F \<notin> set lns \<Longrightarrow> \<not> checkRecType p \<Longrightarrow>
   feed F B lns p = ([], foldl (\<lambda>s x. accumulate F B x s) p lns)"
proof (induction lns arbitrary: p)
  case Nil
  then show ?case by simp
next
  case (Cons ln lns)
  from Cons.prems have nb: "fi_begin F \<noteq> ln" and rest: "fi_begin F \<notin> set lns" by auto
  have "\<not> checkRecType (accumulate F B ln p)"
    using Cons.prems(2) by (simp add: accumulate_frame)
  from Cons.IH [OF rest this] onData_accumulate [OF nb Cons.prems(2), of B]
  show ?case by simp
qed

lemma feed_blanks:
  "\<forall>x \<in> set blanks. x = fi_empty F \<Longrightarrow> fi_begin F \<notin> set blanks \<Longrightarrow>
   feed F B blanks p = ([], p\<lparr>crlfCounter := crlfCounter p + length blanks\<rparr>)"
proof (induction blanks arbitrary: p)
  case Nil
  then show ?case by simp
next
  case (Cons x blanks)
  from Cons.prems have "fi_begin F \<noteq> x" and "fi_empty F = x" by auto
  from onData_blank [OF this, of B p] Cons.IH [of "p\<lparr>crlfCounter := crlfCounter p + 1\<rparr>"] Cons.prems
  show ?case by simp
qed

lemma spec_unknown_key_ignored:
  "buildKey p = None \<Longrightarrow>
   builder (foldl (\<lambda>s x. accumulate F (specBuilder thr) x s) p lns) = builder p"
proof (induction lns arbitrary: p)
  case Nil
  then show ?case by simp
next
  case (Cons x lns)
  have k: "buildKey (accumulate F (specBuilder thr) x p) = None"
    using Cons.prems by (simp add: accumulate_frame)
  have b: "builder (accumulate F (specBuilder thr) x p) = builder p"
    using Cons.prems by (simp add: accumulate_def specBuilder_def specAddLineTo_def)
  from Cons.IH [OF k] b show ?case by simp
qed

lemma spec_unknown_key_built: "buildKey p = None \<Longrightarrow> built (specBuilder thr) p = emptyRecord"
  by (simp add: built_def specBuilder_def specBuildRecord_def)

lemma spec_buildRecord_keeps: "snd (buildRecord (specBuilder thr) k b) = b"
  by (simp add: specBuilder_def specBuildRecord_def split: option.splits prod.splits)

lemma checkType_revisit_unread:
  "fi_revisit F = ln \<Longrightarrow> ln \<notin> {fi_req F, fi_res F, fi_info F, fi_mdata F} \<Longrightarrow>
   checkType F B ln lb p = (None, [ConsoleLog ln], p\<lparr>checkRecType := False, foundType := False\<rparr>)"
  by (rule checkType_unmatched) auto

subsection \<open>Classifying the type line\<close>

text \<open>
  Claim C1: a line received while the parser awaits the type is compared with the five
  type sentinels in the order request, response, revisit, info, metadata, and a match
  starts the builder for that type; a line equal to the revisit sentinel starts a revisit
  record. The code does not do this for the revisit sentinel: \<open>_checkType\<close> never reads
  \<open>warcFieldIdentifiers.revisit\<close>, and its call of \<open>initRevist\<close> stands behind a test of
  \<open>_foundType\<close> that has just been found false. Evaluated on the revisit line after the
  first begin line: no key is returned, the line is logged as an unknown type, the builder
  is left as it was, and the handler of \<open>data\<close> stores \<open>undefined\<close> as the key.
\<close>

theorem C1_revisit_line_not_initialised:
  "fi_revisit warcFieldIdentifiers \<noteq> fi_begin warcFieldIdentifiers \<and>
   fi_revisit warcFieldIdentifiers \<noteq> fi_empty warcFieldIdentifiers \<and>
   checkRecType awaitingFirstType \<and>
   checkType warcFieldIdentifiers exampleBuilder (fi_revisit warcFieldIdentifiers)
       (lastBegin awaitingFirstType) awaitingFirstType =
     (None, [ConsoleLog (fi_revisit warcFieldIdentifiers)],
      awaitingFirstType\<lparr>checkRecType := False, foundType := False\<rparr>) \<and>
   buildKey (snd (onData warcFieldIdentifiers exampleBuilder (fi_revisit warcFieldIdentifiers)
                    awaitingFirstType)) = None \<and>
   builder (snd (onData warcFieldIdentifiers exampleBuilder (fi_revisit warcFieldIdentifiers)
                   awaitingFirstType)) = builder awaitingFirstType \<and>
   fst (initRevist exampleBuilder (lastBegin awaitingFirstType)
          (fi_revisit warcFieldIdentifiers) (builder awaitingFirstType)) = Revisit"
proof -
  have r: "fi_revisit warcFieldIdentifiers \<notin>
             {fi_req warcFieldIdentifiers, fi_res warcFieldIdentifiers,
              fi_info warcFieldIdentifiers, fi_mdata warcFieldIdentifiers}"
    by (simp add: warcFieldIdentifiers_def)
  have c: "checkType warcFieldIdentifiers exampleBuilder (fi_revisit warcFieldIdentifiers)
               (lastBegin awaitingFirstType) awaitingFirstType =
             (None, [ConsoleLog (fi_revisit warcFieldIdentifiers)],
              awaitingFirstType\<lparr>checkRecType := False, foundType := False\<rparr>)"
    using r by (intro checkType_revisit_unread) simp_all
  have b: "fi_revisit warcFieldIdentifiers \<noteq> fi_begin warcFieldIdentifiers"
    and e: "fi_revisit warcFieldIdentifiers \<noteq> fi_empty warcFieldIdentifiers"
    by (simp_all add: warcFieldIdentifiers_def)
  have a: "checkRecType awaitingFirstType"
    by (simp add: awaitingFirstType_def eval_defs)
  have o: "onData warcFieldIdentifiers exampleBuilder (fi_revisit warcFieldIdentifiers)
             awaitingFirstType =
           ([ConsoleLog (fi_revisit warcFieldIdentifiers)],
            awaitingFirstType\<lparr>checkRecType := False, foundType := False, buildKey := None\<rparr>)"
    using onData_typeLine [of warcFieldIdentifiers "fi_revisit warcFieldIdentifiers"
        awaitingFirstType exampleBuilder] a b e c
    by simp
  have i: "fst (initRevist exampleBuilder (lastBegin awaitingFirstType)
                  (fi_revisit warcFieldIdentifiers) (builder awaitingFirstType)) = Revisit"
    by (simp add: exampleBuilder_def specBuilder_def specInit_def)
  from a b e c o i show ?thesis by simp
qed

subsection \<open>Notifications of a session\<close>

text \<open>
  Claim C2: a file of \<open>N\<close> well-formed records (\<open>N\<close> at least one; each record is the
  begin line followed by lines that are not the begin line) gives exactly \<open>N\<close>
  notifications that carry a record, in the order of the file: \<open>record\<close> for each record
  but the last, with what \<open>buildRecord\<close> gives once that record was read, and then \<open>done\<close>
  once, at the end of the stream, with what \<open>buildRecord\<close> gives for the last record.
\<close>

theorem C2_record_notifications:
  assumes opened: "fst (start p) = Inr Undefined"
    and some: "recs \<noteq> []"
    and wf: "\<forall>body \<in> set recs. fi_begin F \<notin> set body"
  shows "filter carriesRecord (fst (snd (session F B (fileOf F recs) p))) =
           map (\<lambda>i. EmitRecord (built B (snd (feed F B (fileOf F (take i recs)) (snd (start p))))))
               [1..<length recs]
           @ [EmitDone (built B (snd (feed F B (fileOf F recs) (snd (start p)))))]
         \<and> length (filter carriesRecord (fst (snd (session F B (fileOf F recs) p)))) = length recs"
proof -
  from opened have st: "starting (snd (start p))"
    by (auto simp: start_def split: if_splits option.splits)
  have evs: "filter carriesRecord (fst (snd (session F B (fileOf F recs) p))) =
           map (\<lambda>i. EmitRecord (built B (snd (feed F B (fileOf F (take i recs)) (snd (start p))))))
               [1..<length recs]
           @ [EmitDone (built B (snd (feed F B (fileOf F recs) (snd (start p)))))]"
    using feed_fileOf_records [OF wf st, of B] by (simp add: session_opened [OF opened])
  from some have "length recs - 1 + 1 = length recs" by (cases recs) auto
  with evs show ?thesis by simp
qed

theorem C2_record_notifications_witness:
  "fst (start freshParser) = Inr Undefined \<and> exampleRecords \<noteq> [] \<and>
   list_all (\<lambda>body. fi_begin warcFieldIdentifiers \<notin> set body) exampleRecords \<and>
   filter carriesRecord
     (fst (snd (session warcFieldIdentifiers exampleBuilder
                  (fileOf warcFieldIdentifiers exampleRecords) freshParser))) =
     [EmitRecord \<lparr>rm_type = Info,
                  rm_headers = [(''WARC-Type'', ''warcinfo''), (''a'', ''b'')],
                  rm_payload = []\<rparr>,
      EmitDone \<lparr>rm_type = Metadata,
                rm_headers = [(''WARC-Type'', ''metadata''), (''c'', ''d'')],
                rm_payload = []\<rparr>] \<and>
   length (filter carriesRecord
     (fst (snd (session warcFieldIdentifiers exampleBuilder
                  (fileOf warcFieldIdentifiers exampleRecords) freshParser)))) = 2"
proof -
  have h1: "fst (start freshParser) = Inr Undefined"
    by (simp add: start_def freshParser_def newWARCParser_def)
  have h2: "exampleRecords \<noteq> []"
    by (simp add: exampleRecords_def)
  have h3: "\<forall>body \<in> set exampleRecords. fi_begin warcFieldIdentifiers \<notin> set body"
    by (simp add: exampleRecords_def infoLines_def mdataLines_def warcFieldIdentifiers_def)
  have l: "[1..<length exampleRecords] = [1]"
    by (simp add: exampleRecords_def)
  have t: "take (Suc 0) exampleRecords = [infoLines]"
    by (simp add: exampleRecords_def)
  have r1: "built exampleBuilder
              (snd (feed warcFieldIdentifiers exampleBuilder
                      (fileOf warcFieldIdentifiers [infoLines]) (snd (start freshParser)))) =
            \<lparr>rm_type = Info, rm_headers = [(''WARC-Type'', ''warcinfo''), (''a'', ''b'')],
             rm_payload = []\<rparr>"
    by (simp add: eval_defs)
  have r2: "built exampleBuilder
              (snd (feed warcFieldIdentifiers exampleBuilder
                      (fileOf warcFieldIdentifiers exampleRecords) (snd (start freshParser)))) =
            \<lparr>rm_type = Metadata, rm_headers = [(''WARC-Type'', ''metadata''), (''c'', ''d'')],
             rm_payload = []\<rparr>"
    by (simp add: eval_defs)
  have n: "length exampleRecords = 2"
    by (simp add: exampleRecords_def)
  from C2_record_notifications [OF h1 h2 h3, of exampleBuilder] h1 h2 h3 show ?thesis
    unfolding l by (simp add: t r1 r2 n list_all_iff)
qed

subsection \<open>A type line that matches nothing\<close>

text \<open>
  Claim C3: when the first non-empty line after a begin line matches none of the five
  type sentinels, the line is only logged; no error notification is emitted; parsing goes
  on, the lines that follow changing nothing in the builder; and the record emitted at the
  next begin line, or at the end of the stream, is the empty record of type Unknown,
  without headers or payload, whatever the builder holds of other records. The builder is
  the one of the specification, with any thresholds: an unknown key changes nothing and
  builds the empty record.
\<close>

theorem C3_unknown_type_degrades:
  assumes unknown: "ln \<notin> {fi_req F, fi_res F, fi_revisit F, fi_info F, fi_mdata F}"
    and line: "ln \<noteq> fi_begin F" "ln \<noteq> fi_empty F"
    and blanks: "\<forall>x \<in> set blanks. x = fi_empty F" "fi_begin F \<notin> set blanks"
    and rest: "fi_begin F \<notin> set rest"
  shows "let r = feed F (specBuilder thr) (fi_begin F # blanks @ ln # rest) p; q = snd r
         in fst r =
              (if starting p then [] else [EmitRecord (built (specBuilder thr) p)]) @
              [ConsoleLog ln] \<and>
            filter isError (fst r) = [] \<and>
            builder q = builder p \<and> buildKey q = None \<and> parsing q = parsing p \<and>
            onData F (specBuilder thr) (fi_begin F) q =
              ([EmitRecord emptyRecord],
               q\<lparr>crlfCounter := 0, checkRecType := True, lastBegin := Some (fi_begin F)\<rparr>) \<and>
            fst (onEnd (specBuilder thr) q) = [EmitDone emptyRecord]"
proof -
  let ?B = "specBuilder thr"
  let ?acc = "\<lambda>s x. accumulate F ?B x s"
  define p1 where "p1 = snd (onData F ?B (fi_begin F) p)"
  define p2 where "p2 = p1\<lparr>crlfCounter := crlfCounter p1 + length blanks\<rparr>"
  define p3 where "p3 = p2\<lparr>checkRecType := False, foundType := False, buildKey := None\<rparr>"
  define p4 where "p4 = foldl ?acc p3 rest"
  have e1: "fst (onData F ?B (fi_begin F) p) =
              (if starting p then [] else [EmitRecord (built ?B p)])"
    by (simp add: onData_begin)
  have s1: "checkRecType p1 \<and> \<not> starting p1 \<and> builder p1 = builder p \<and> parsing p1 = parsing p"
    by (simp add: p1_def onData_begin spec_buildRecord_keeps)
  have f2: "feed F ?B blanks p1 = ([], p2)"
    unfolding p2_def using blanks by (rule feed_blanks)
  have s2: "checkRecType p2" using s1 by (simp add: p2_def)
  have f3: "onData F ?B ln p2 = ([ConsoleLog ln], p3)"
    using onData_typeLine [of F ln p2 ?B] s2 line unknown
      checkType_unmatched [of F ln ?B "lastBegin p2" p2]
    by (auto simp: p3_def)
  have n3: "\<not> checkRecType p3" and k3: "buildKey p3 = None" by (simp_all add: p3_def)
  have f4: "feed F ?B rest p3 = ([], p4)"
    unfolding p4_def using rest n3 by (rule feed_accumulate)
  have s4: "buildKey p4 = None \<and> \<not> starting p4 \<and> parsing p4 = parsing p \<and> builder p4 = builder p"
    using foldl_accumulate_frame [of F ?B p3 rest] spec_unknown_key_ignored [OF k3, of F thr rest] s1
    by (simp add: p4_def p3_def p2_def)
  have o1: "onData F ?B (fi_begin F) p =
              ((if starting p then [] else [EmitRecord (built ?B p)]), p1)"
    using e1 by (simp add: p1_def prod_eq_iff)
  have g3: "feed F ?B (ln # rest) p2 = ([ConsoleLog ln], p4)"
    using f3 f4 by simp
  have g2: "feed F ?B (blanks @ ln # rest) p1 = ([ConsoleLog ln], p4)"
    using f2 g3 by (simp add: feed_append)
  have all: "feed F ?B (fi_begin F # blanks @ ln # rest) p =
               ((if starting p then [] else [EmitRecord (built ?B p)]) @ [ConsoleLog ln], p4)"
    using o1 g2 by simp
  have f5: "onData F ?B (fi_begin F) p4 =
              ([EmitRecord emptyRecord],
               p4\<lparr>crlfCounter := 0, checkRecType := True, lastBegin := Some (fi_begin F)\<rparr>)"
    using s4 by (simp add: onData_begin spec_unknown_key_built spec_buildRecord_keeps)
  have f6: "fst (onEnd ?B p4) = [EmitDone emptyRecord]"
    using s4 by (simp add: onEnd_events spec_unknown_key_built)
  show ?thesis
    unfolding Let_def all using s4 f5 f6 by simp
qed

theorem C3_unknown_type_degrades_witness:
  "junkLine \<notin> {fi_req warcFieldIdentifiers, fi_res warcFieldIdentifiers,
                 fi_revisit warcFieldIdentifiers, fi_info warcFieldIdentifiers,
                 fi_mdata warcFieldIdentifiers} \<and>
   junkLine \<noteq> fi_begin warcFieldIdentifiers \<and> junkLine \<noteq> fi_empty warcFieldIdentifiers \<and>
   list_all (\<lambda>x. x = fi_empty warcFieldIdentifiers) [fi_empty warcFieldIdentifiers] \<and>
   fi_begin warcFieldIdentifiers \<notin> set [fi_empty warcFieldIdentifiers] \<and>
   fi_begin warcFieldIdentifiers \<notin> set [''x: y'' @ [CR]] \<and>
   fst (feed warcFieldIdentifiers (specBuilder exampleThresholds)
          (fi_begin warcFieldIdentifiers # [fi_empty warcFieldIdentifiers] @
           junkLine # [''x: y'' @ [CR]])
          midSession) =
     [EmitRecord \<lparr>rm_type = Info,
                  rm_headers = [(''WARC-Type'', ''warcinfo''), (''a'', ''b'')],
                  rm_payload = []\<rparr>,
      ConsoleLog junkLine] \<and>
   fst (onData warcFieldIdentifiers (specBuilder exampleThresholds)
          (fi_begin warcFieldIdentifiers)
          (snd (feed warcFieldIdentifiers (specBuilder exampleThresholds)
                  (fi_begin warcFieldIdentifiers # [fi_empty warcFieldIdentifiers] @
                   junkLine # [''x: y'' @ [CR]])
                  midSession))) = [EmitRecord emptyRecord] \<and>
   fst (onEnd (specBuilder exampleThresholds)
          (snd (feed warcFieldIdentifiers (specBuilder exampleThresholds)
                  (fi_begin warcFieldIdentifiers # [fi_empty warcFieldIdentifiers] @
                   junkLine # [''x: y'' @ [CR]])
                  midSession))) = [EmitDone emptyRecord]"
proof -
  have h1: "junkLine \<notin> {fi_req warcFieldIdentifiers, fi_res warcFieldIdentifiers,
                 fi_revisit warcFieldIdentifiers, fi_info warcFieldIdentifiers,
                 fi_mdata warcFieldIdentifiers}"
    by (simp add: junkLine_def warcFieldIdentifiers_def)
  have h2: "junkLine \<noteq> fi_begin warcFieldIdentifiers"
    and h3: "junkLine \<noteq> fi_empty warcFieldIdentifiers"
    by (simp_all add: junkLine_def warcFieldIdentifiers_def)
  have h4: "\<forall>x \<in> set [fi_empty warcFieldIdentifiers]. x = fi_empty warcFieldIdentifiers"
    and h5: "fi_begin warcFieldIdentifiers \<notin> set [fi_empty warcFieldIdentifiers]"
    and h6: "fi_begin warcFieldIdentifiers \<notin> set [''x: y'' @ [CR]]"
    by (simp_all add: warcFieldIdentifiers_def)
  have s: "\<not> starting midSession"
    by (simp add: eval_defs)
  have b: "built (specBuilder exampleThresholds) midSession =
           \<lparr>rm_type = Info, rm_headers = [(''WARC-Type'', ''warcinfo''), (''a'', ''b'')],
            rm_payload = []\<rparr>"
    by (simp add: eval_defs)
  note t = C3_unknown_type_degrades [OF h1 h2 h3 h4 h5 h6, of exampleThresholds midSession,
      unfolded Let_def]
  from t s b have e: "fst (feed warcFieldIdentifiers (specBuilder exampleThresholds)
          (fi_begin warcFieldIdentifiers # [fi_empty warcFieldIdentifiers] @
           junkLine # [''x: y'' @ [CR]])
          midSession) =
     [EmitRecord \<lparr>rm_type = Info,
                  rm_headers = [(''WARC-Type'', ''warcinfo''), (''a'', ''b'')],
                  rm_payload = []\<rparr>,
      ConsoleLog junkLine]"
    by simp
  from t have n: "fst (onData warcFieldIdentifiers (specBuilder exampleThresholds)
          (fi_begin warcFieldIdentifiers)
          (snd (feed warcFieldIdentifiers (specBuilder exampleThresholds)
                  (fi_begin warcFieldIdentifiers # [fi_empty warcFieldIdentifiers] @
                   junkLine # [''x: y'' @ [CR]])
                  midSession))) = [EmitRecord emptyRecord]"
    by simp
  from t have d: "fst (onEnd (specBuilder exampleThresholds)
          (snd (feed warcFieldIdentifiers (specBuilder exampleThresholds)
                  (fi_begin warcFieldIdentifiers # [fi_empty warcFieldIdentifiers] @
                   junkLine # [''x: y'' @ [CR]])
                  midSession))) = [EmitDone emptyRecord]"
    by blast
  from h1 h2 h3 h5 h6 e n d show ?thesis by simp
qed

subsection \<open>An error of the transport\<close>

text \<open>
  Claim C4: when the transport reports an error, the parser forwards it as an \<open>error\<close>
  notification, the session is given up and the read stream is released (destroyed, the
  parser no longer parsing), as at the end of the stream. The code forwards the error and
  does nothing else: the handler of \<open>error\<close> leaves \<open>_parsing\<close> set and the stream open,
  where the handler of \<open>end\<close> clears the one and destroys the other. Evaluated in the
  middle of a session: after the error the parser is unchanged, still parsing, its stream
  not destroyed, and \<open>start\<close> answers \<open>false\<close>; after the end of the stream it is not
  parsing and the stream is destroyed.
\<close>

theorem C4_error_releases_nothing:
  "(onError (Error ''EIO'') midSession ::
      RecordModel notification list \<times> (builderState, recordType) WARCParser) =
     ([EmitError (Error ''EIO'')], midSession) \<and>
   parsing midSession \<and>
   readStream midSession = Some \<lparr>rs_path = ''a.warc'', rs_destroyed = False\<rparr> \<and>
   fst (start midSession) = Inr (Boolean False) \<and>
   \<not> parsing (snd (onEnd exampleBuilder midSession)) \<and>
   readStream (snd (onEnd exampleBuilder midSession)) =
     Some \<lparr>rs_path = ''a.warc'', rs_destroyed = True\<rparr>"
  by (simp add: eval_defs)

subsection \<open>What \<open>start\<close> and \<open>parseWARC\<close> answer\<close>

text \<open>
  Claim C5: \<open>start\<close> and \<open>parseWARC\<close> return \<open>true\<close> when a session begins and \<open>false\<close> when
  one is in progress. The code returns \<open>false\<close> in the second case only: the branch that
  opens the session ends without a \<open>return\<close>, so the call that begins a session returns
  \<open>undefined\<close>, against the \<open>@return\<close> of its own documentation. Evaluated on a parser
  fresh from the constructor: both calls open the session and return \<open>undefined\<close>.
\<close>

theorem C5_started_session_returns_undefined:
  "fst (start freshParser) = Inr Undefined \<and> parsing (snd (start freshParser)) \<and>
   fst (parseWARC (Some ''b.warc'') freshParser) = Inr Undefined \<and>
   parsing (snd (parseWARC (Some ''b.warc'') freshParser)) \<and>
   Inr Undefined \<noteq> (Inr (Boolean True) :: exn + jsval)"
  by (simp add: eval_defs)

subsection \<open>The begin line\<close>

text \<open>
  Claim C6: on a line equal to the begin sentinel, nothing is emitted if it is the first
  begin line of the session; otherwise the record in progress is built with \<open>buildRecord\<close>
  and emitted as \<open>record\<close>. Either way the count of blank lines is 0 afterwards and the
  parser awaits the type: the next line that is neither the begin line nor blank is given
  to \<open>_checkType\<close>, with this begin line.
\<close>

theorem C6_begin_line:
  assumes opened: "fst (start p) = Inr Undefined"
  shows "let q = snd (feed F B pre (snd (start p)));
             q' = snd (onData F B (fi_begin F) q)
         in fst (onData F B (fi_begin F) q) =
              (if fi_begin F \<in> set pre then [EmitRecord (built B q)] else []) \<and>
            crlfCounter q' = 0 \<and> checkRecType q' \<and> \<not> starting q' \<and>
            (\<forall>ln. ln \<noteq> fi_begin F \<and> ln \<noteq> fi_empty F \<longrightarrow>
               onData F B ln q' =
                 (case checkType F B ln (Some (fi_begin F)) q' of
                    (k, evs, p1) \<Rightarrow> (evs, p1\<lparr>buildKey := k\<rparr>)))"
proof -
  from opened have st: "starting (snd (start p))"
    by (auto simp: start_def split: if_splits option.splits)
  let ?q = "snd (feed F B pre (snd (start p)))"
  let ?q' = "snd (onData F B (fi_begin F) ?q)"
  have s: "starting ?q = (fi_begin F \<notin> set pre)"
    using st by (simp add: feed_starting)
  have e: "fst (onData F B (fi_begin F) ?q) =
             (if fi_begin F \<in> set pre then [EmitRecord (built B ?q)] else [])"
    using s by (simp add: onData_begin)
  have f: "crlfCounter ?q' = 0 \<and> checkRecType ?q' \<and> \<not> starting ?q' \<and>
           lastBegin ?q' = Some (fi_begin F)"
    by (simp add: onData_begin)
  have "onData F B ln ?q' =
          (case checkType F B ln (Some (fi_begin F)) ?q' of
             (k, evs, p1) \<Rightarrow> (evs, p1\<lparr>buildKey := k\<rparr>))"
    if "ln \<noteq> fi_begin F \<and> ln \<noteq> fi_empty F" for ln
    using that f onData_typeLine [of F ln ?q' B] by auto
  with e f show ?thesis by (simp add: Let_def)
qed

theorem C6_begin_line_witness:
  "fst (start freshParser) = Inr Undefined \<and>
   fst (onData warcFieldIdentifiers exampleBuilder (fi_begin warcFieldIdentifiers)
          (snd (feed warcFieldIdentifiers exampleBuilder [] (snd (start freshParser))))) = [] \<and>
   fst (onData warcFieldIdentifiers exampleBuilder (fi_begin warcFieldIdentifiers)
          (snd (feed warcFieldIdentifiers exampleBuilder
                  (fi_begin warcFieldIdentifiers # infoLines) (snd (start freshParser))))) =
     [EmitRecord \<lparr>rm_type = Info,
                  rm_headers = [(''WARC-Type'', ''warcinfo''), (''a'', ''b'')],
                  rm_payload = []\<rparr>] \<and>
   crlfCounter (snd (onData warcFieldIdentifiers exampleBuilder (fi_begin warcFieldIdentifiers)
          (snd (feed warcFieldIdentifiers exampleBuilder
                  (fi_begin warcFieldIdentifiers # infoLines) (snd (start freshParser)))))) = 0 \<and>
   fi_info warcFieldIdentifiers \<noteq> fi_begin warcFieldIdentifiers \<and>
   fi_info warcFieldIdentifiers \<noteq> fi_empty warcFieldIdentifiers \<and>
   buildKey (snd (onData warcFieldIdentifiers exampleBuilder (fi_info warcFieldIdentifiers)
     (snd (onData warcFieldIdentifiers exampleBuilder (fi_begin warcFieldIdentifiers)
          (snd (feed warcFieldIdentifiers exampleBuilder [] (snd (start freshParser)))))))) =
     fst (checkType warcFieldIdentifiers exampleBuilder (fi_info warcFieldIdentifiers)
            (Some (fi_begin warcFieldIdentifiers))
            (snd (onData warcFieldIdentifiers exampleBuilder (fi_begin warcFieldIdentifiers)
               (snd (feed warcFieldIdentifiers exampleBuilder [] (snd (start freshParser)))))))"
proof -
  have h: "fst (start freshParser) = Inr Undefined"
    by (simp add: start_def freshParser_def newWARCParser_def)
  have n: "fi_info warcFieldIdentifiers \<noteq> fi_begin warcFieldIdentifiers \<and>
           fi_info warcFieldIdentifiers \<noteq> fi_empty warcFieldIdentifiers"
    by (simp add: warcFieldIdentifiers_def)
  have m: "fi_begin warcFieldIdentifiers \<in> set (fi_begin warcFieldIdentifiers # infoLines)"
    by simp
  have b: "built exampleBuilder
             (snd (feed warcFieldIdentifiers exampleBuilder
                     (fi_begin warcFieldIdentifiers # infoLines) (snd (start freshParser)))) =
           \<lparr>rm_type = Info, rm_headers = [(''WARC-Type'', ''warcinfo''), (''a'', ''b'')],
            rm_payload = []\<rparr>"
    by (simp add: eval_defs)
  have first: "fst (onData warcFieldIdentifiers exampleBuilder (fi_begin warcFieldIdentifiers)
          (snd (feed warcFieldIdentifiers exampleBuilder [] (snd (start freshParser))))) = []"
    using C6_begin_line [OF h, of warcFieldIdentifiers exampleBuilder "[]"]
    by (simp add: Let_def)
  have typed: "onData warcFieldIdentifiers exampleBuilder (fi_info warcFieldIdentifiers)
     (snd (onData warcFieldIdentifiers exampleBuilder (fi_begin warcFieldIdentifiers)
          (snd (feed warcFieldIdentifiers exampleBuilder [] (snd (start freshParser)))))) =
     (case checkType warcFieldIdentifiers exampleBuilder (fi_info warcFieldIdentifiers)
            (Some (fi_begin warcFieldIdentifiers))
            (snd (onData warcFieldIdentifiers exampleBuilder (fi_begin warcFieldIdentifiers)
               (snd (feed warcFieldIdentifiers exampleBuilder [] (snd (start freshParser)))))) of
        (k, evs, p1) \<Rightarrow> (evs, p1\<lparr>buildKey := k\<rparr>))"
    using C6_begin_line [OF h, of warcFieldIdentifiers exampleBuilder "[]"] n
    unfolding Let_def by blast
  have later: "fst (onData warcFieldIdentifiers exampleBuilder (fi_begin warcFieldIdentifiers)
          (snd (feed warcFieldIdentifiers exampleBuilder
                  (fi_begin warcFieldIdentifiers # infoLines) (snd (start freshParser))))) =
     [EmitRecord (built exampleBuilder
             (snd (feed warcFieldIdentifiers exampleBuilder
                     (fi_begin warcFieldIdentifiers # infoLines) (snd (start freshParser)))))] \<and>
     crlfCounter (snd (onData warcFieldIdentifiers exampleBuilder (fi_begin warcFieldIdentifiers)
          (snd (feed warcFieldIdentifiers exampleBuilder
                  (fi_begin warcFieldIdentifiers # infoLines) (snd (start freshParser)))))) = 0"
    using C6_begin_line [OF h, of warcFieldIdentifiers exampleBuilder
        "fi_begin warcFieldIdentifiers # infoLines"] m
    unfolding Let_def by simp
  have key: "buildKey (snd (onData warcFieldIdentifiers exampleBuilder (fi_info warcFieldIdentifiers)
     (snd (onData warcFieldIdentifiers exampleBuilder (fi_begin warcFieldIdentifiers)
          (snd (feed warcFieldIdentifiers exampleBuilder [] (snd (start freshParser)))))))) =
     fst (checkType warcFieldIdentifiers exampleBuilder (fi_info warcFieldIdentifiers)
            (Some (fi_begin warcFieldIdentifiers))
            (snd (onData warcFieldIdentifiers exampleBuilder (fi_begin warcFieldIdentifiers)
               (snd (feed warcFieldIdentifiers exampleBuilder [] (snd (start freshParser)))))))"
    unfolding typed by (simp split: prod.splits)
  from h n first later b key show ?thesis by simp
qed

subsection \<open>Starting without a path\<close>

text \<open>
  Claim C7: \<open>start\<close>, called directly or through \<open>parseWARC\<close>, throws an \<open>Error\<close> when no
  path is configured, before a read stream is opened or a line is processed: the parser is
  as it was before the call. This holds in every state a parser can be in, since a parser
  that is parsing has a path. (\<open>parseWARC\<close> with a path of its own configures that path;
  the case here is the call without one.)
\<close>

theorem C7_no_path_throws:
  assumes "reachable F B p" and "wp p = None"
  shows "start p = (Inl (Error ''The path to the WARC file is undefined''), p) \<and>
         (\<not> truthy w \<longrightarrow>
            parseWARC w p = (Inl (Error ''The path to the WARC file is undefined''), p))"
proof -
  from assms reachable_path [of F B p] have idle: "\<not> parsing p" by auto
  with assms(2) show ?thesis by (simp add: start_def parseWARC_def)
qed

theorem C7_no_path_throws_witness:
  "reachable warcFieldIdentifiers exampleBuilder unconfiguredParser \<and>
   wp unconfiguredParser = None \<and>
   start unconfiguredParser =
     (Inl (Error ''The path to the WARC file is undefined''), unconfiguredParser) \<and>
   \<not> truthy None \<and>
   parseWARC None unconfiguredParser =
     (Inl (Error ''The path to the WARC file is undefined''), unconfiguredParser) \<and>
   readStream unconfiguredParser = None"
proof -
  have h1: "reachable warcFieldIdentifiers exampleBuilder unconfiguredParser"
    unfolding unconfiguredParser_def by (rule reachable.constructed)
  have h2: "wp unconfiguredParser = None"
    by (simp add: unconfiguredParser_def newWARCParser_def)
  have h3: "\<not> truthy None"
    by (simp add: truthy_def)
  have h4: "readStream unconfiguredParser = None"
    by (simp add: unconfiguredParser_def newWARCParser_def)
  from C7_no_path_throws [OF h1 h2, of None] h1 h2 h3 h4 show ?thesis by simp
qed

subsection \<open>A call while a session is in progress\<close>

text \<open>
  Claim C8: while a session is in progress, \<open>start\<close> and \<open>parseWARC\<close> return \<open>false\<close> and
  leave the parser as it is: the path, the read stream, the count of blank lines, the
  flags, the variables of the session and the builder are all unchanged.
\<close>

theorem C8_busy_call_rejected:
  assumes "parsing p"
  shows "start p = (Inr (Boolean False), p) \<and> parseWARC w p = (Inr (Boolean False), p)"
  using assms by (simp add: start_def parseWARC_def)

theorem C8_busy_call_rejected_witness:
  "parsing midSession \<and>
   start midSession = (Inr (Boolean False), midSession) \<and>
   parseWARC (Some ''b.warc'') midSession = (Inr (Boolean False), midSession)"
proof -
  have h: "parsing midSession"
    by (simp add: eval_defs)
  from C8_busy_call_rejected [OF h, of "Some ''b.warc''"] h show ?thesis by simp
qed

subsection \<open>Two sessions on the same lines\<close>

text \<open>
  Claim C9, as amended: two sessions fed the same lines, with the builder in the same
  state when they start, emit the same notifications (the \<open>record\<close> notifications and the
  final \<open>done\<close>, with the same records) if the first line is the begin sentinel, as in
  every WARC file: \<open>start\<close> sets \<open>_starting\<close>, the begin line and the key anew, and the
  first begin line resets the type-check flag and the count of blank lines. \<open>start\<close>
  resets neither of these two; for lines that do not start with the begin sentinel the
  two sessions emit the same notifications if their parsers also agree on both. The path,
  the read stream, \<open>_starting\<close>, \<open>_foundType\<close>, and the begin line and the key of an
  earlier session never matter.
\<close>

theorem C9_sessions_deterministic:
  assumes p: "fst (start p) = Inr Undefined" and q: "fst (start q) = Inr Undefined"
    and b: "builder p = builder q"
    and l: "startsWithBegin F lns \<or>
            (checkRecType p = checkRecType q \<and> crlfCounter p = crlfCounter q)"
  shows "fst (snd (session F B lns p)) = fst (snd (session F B lns q))"
proof -
  let ?p = "snd (start p)" and ?q = "snd (start q)"
  from p q b have s: "starting ?p \<and> starting ?q \<and> builder ?p = builder ?q \<and>
      lastBegin ?p = lastBegin ?q \<and> buildKey ?p = buildKey ?q \<and>
      checkRecType ?p = checkRecType p \<and> checkRecType ?q = checkRecType q \<and>
      crlfCounter ?p = crlfCounter p \<and> crlfCounter ?q = crlfCounter q"
    by (auto simp: start_def split: if_splits option.splits)
  have e: "fst (feed F B lns ?p) = fst (feed F B lns ?q) \<and>
           sameSessionState (snd (feed F B lns ?p)) (snd (feed F B lns ?q))"
  proof (cases "startsWithBegin F lns")
    case True
    then obtain rest where lns: "lns = fi_begin F # rest"
      by (auto simp: startsWithBegin_def split: list.splits)
    have o: "fst (onData F B (fi_begin F) ?p) = fst (onData F B (fi_begin F) ?q) \<and>
             sameSessionState (snd (onData F B (fi_begin F) ?p)) (snd (onData F B (fi_begin F) ?q))"
      using s by (simp add: onData_begin sameSessionState_def)
    from o feed_same [of "snd (onData F B (fi_begin F) ?p)" "snd (onData F B (fi_begin F) ?q)"
        F B rest]
    show ?thesis unfolding lns by (auto split: prod.splits)
  next
    case False
    with l s have "sameSessionState ?p ?q"
      by (simp add: sameSessionState_def)
    then show ?thesis by (rule feed_same)
  qed
  from e have "built B (snd (feed F B lns ?p)) = built B (snd (feed F B lns ?q))"
    by (simp add: built_def sameSessionState_def)
  with e show ?thesis
    by (simp add: session_opened [OF p] session_opened [OF q])
qed

theorem C9_sessions_deterministic_witness:
  "fst (start freshParser) = Inr Undefined \<and> fst (start usedParser) = Inr Undefined \<and>
   builder freshParser = builder usedParser \<and>
   startsWithBegin warcFieldIdentifiers (fileOf warcFieldIdentifiers exampleRecords) \<and>
   checkRecType freshParser \<noteq> checkRecType usedParser \<and>
   crlfCounter freshParser \<noteq> crlfCounter usedParser \<and>
   wp freshParser \<noteq> wp usedParser \<and> starting freshParser \<noteq> starting usedParser \<and>
   fst (snd (session warcFieldIdentifiers exampleBuilder
               (fileOf warcFieldIdentifiers exampleRecords) freshParser)) =
   fst (snd (session warcFieldIdentifiers exampleBuilder
               (fileOf warcFieldIdentifiers exampleRecords) usedParser))"
proof -
  have h1: "fst (start freshParser) = Inr Undefined"
    by (simp add: start_def freshParser_def newWARCParser_def)
  have h2: "fst (start usedParser) = Inr Undefined"
    by (simp add: usedParser_def otherParser_def eval_defs)
  have h3: "builder freshParser = builder usedParser"
    by (simp add: usedParser_def otherParser_def eval_defs)
  have h4: "startsWithBegin warcFieldIdentifiers (fileOf warcFieldIdentifiers exampleRecords)"
    by (simp add: startsWithBegin_def fileOf_def exampleRecords_def)
  have d: "checkRecType freshParser \<noteq> checkRecType usedParser \<and>
           crlfCounter freshParser \<noteq> crlfCounter usedParser \<and>
           wp freshParser \<noteq> wp usedParser \<and> starting freshParser \<noteq> starting usedParser"
    by (simp add: usedParser_def otherParser_def eval_defs)
  from h4 have h5: "startsWithBegin warcFieldIdentifiers (fileOf warcFieldIdentifiers exampleRecords) \<or>
      (checkRecType freshParser = checkRecType usedParser \<and>
       crlfCounter freshParser = crlfCounter usedParser)"
    by (rule disjI1)
  from C9_sessions_deterministic [OF h1 h2 h3 h5, of exampleBuilder] h1 h2 h3 h4 d
  show ?thesis by simp
qed

text \<open>
  The claim as it was written holds of every sequence of lines. A session on lines that
  do not start with the begin line and end with one leaves the type-check flag set. A
  second session of the same parser on the same lines, started with the builder as in the
  first, takes the first line for the type line: its \<open>done\<close> carries a \<open>warcinfo\<close> record
  where that of the first session carries the empty record.
\<close>

theorem C9_shared_parser_counterexample:
  "fst (start freshParser) = Inr Undefined \<and> fst (start afterHeadless) = Inr Undefined \<and>
   builder freshParser = builder afterHeadless \<and>
   fst (snd (session warcFieldIdentifiers exampleBuilder headlessLines freshParser)) =
     [EmitDone emptyRecord] \<and>
   fst (snd (session warcFieldIdentifiers exampleBuilder headlessLines afterHeadless)) =
     [EmitDone \<lparr>rm_type = Info,
                rm_headers = [(''WARC-Type'', ''warcinfo''), (''a'', ''b'')],
                rm_payload = []\<rparr>] \<and>
   fst (snd (session warcFieldIdentifiers exampleBuilder headlessLines freshParser)) \<noteq>
   fst (snd (session warcFieldIdentifiers exampleBuilder headlessLines afterHeadless))"
  by (simp add: afterHeadless_def headlessLines_def eval_defs)

subsection \<open>One type check for each record\<close>

text \<open>
  Claim C10, as amended: at most one line of a record is compared with the type
  sentinels. The first line after a begin line that is neither blank nor the begin line
  clears the type-check flag whether or not a sentinel matched; if it matched none of the
  five sentinels, the key variable is \<open>undefined\<close> afterwards, whatever key it held from
  the record before; and every later line up to the next begin line is only counted as
  blank or handed to \<open>addLineTo\<close> under the key left by that one check, without a
  notification.
\<close>

theorem C10_type_checked_once:
  assumes "checkRecType p" and "ln \<noteq> fi_begin F" and "ln \<noteq> fi_empty F"
    and "fi_begin F \<notin> set rest"
  shows "let q = snd (onData F B ln p)
         in \<not> checkRecType q \<and>
            (ln \<notin> {fi_req F, fi_res F, fi_revisit F, fi_info F, fi_mdata F} \<longrightarrow>
               buildKey q = None) \<and>
            feed F B rest q = ([], foldl (\<lambda>s x. accumulate F B x s) q rest) \<and>
            buildKey (snd (feed F B rest q)) = buildKey q"
proof -
  let ?q = "snd (onData F B ln p)"
  obtain k evs p1 where c: "checkType F B ln (lastBegin p) p = (k, evs, p1)"
    by (cases "checkType F B ln (lastBegin p) p") auto
  from assms c have q: "?q = p1\<lparr>buildKey := k\<rparr>"
    using onData_typeLine [of F ln p B] by auto
  from checkType_frame [OF c] q have flag: "\<not> checkRecType ?q" by simp
  have key: "buildKey ?q = None"
    if "ln \<notin> {fi_req F, fi_res F, fi_revisit F, fi_info F, fi_mdata F}"
    using that c q checkType_unmatched [of F ln B "lastBegin p" p] by auto
  from feed_accumulate [OF assms(4) flag, of B]
  have run: "feed F B rest ?q = ([], foldl (\<lambda>s x. accumulate F B x s) ?q rest)" .
  from run foldl_accumulate_frame [of F B ?q rest]
  have "buildKey (snd (feed F B rest ?q)) = buildKey ?q" by simp
  with flag key run show ?thesis by (simp add: Let_def)
qed

theorem C10_type_checked_once_witness:
  "checkRecType awaitingSecondType \<and> junkLine \<noteq> fi_begin warcFieldIdentifiers \<and>
   junkLine \<noteq> fi_empty warcFieldIdentifiers \<and>
   fi_begin warcFieldIdentifiers \<notin> set [''x: y'' @ [CR], fi_empty warcFieldIdentifiers] \<and>
   junkLine \<notin> {fi_req warcFieldIdentifiers, fi_res warcFieldIdentifiers,
                 fi_revisit warcFieldIdentifiers, fi_info warcFieldIdentifiers,
                 fi_mdata warcFieldIdentifiers} \<and>
   \<not> checkRecType (snd (onData warcFieldIdentifiers exampleBuilder junkLine awaitingSecondType)) \<and>
   buildKey (snd (onData warcFieldIdentifiers exampleBuilder junkLine awaitingSecondType)) = None \<and>
   buildKey (snd (feed warcFieldIdentifiers exampleBuilder
                    [''x: y'' @ [CR], fi_empty warcFieldIdentifiers]
                    (snd (onData warcFieldIdentifiers exampleBuilder junkLine
                            awaitingSecondType)))) = None"
proof -
  have h1: "checkRecType awaitingSecondType"
    by (simp add: awaitingSecondType_def eval_defs)
  have h2: "junkLine \<noteq> fi_begin warcFieldIdentifiers"
    and h3: "junkLine \<noteq> fi_empty warcFieldIdentifiers"
    by (simp_all add: junkLine_def warcFieldIdentifiers_def)
  have h4: "fi_begin warcFieldIdentifiers \<notin> set [''x: y'' @ [CR], fi_empty warcFieldIdentifiers]"
    by (simp add: warcFieldIdentifiers_def)
  have h5: "junkLine \<notin> {fi_req warcFieldIdentifiers, fi_res warcFieldIdentifiers,
                 fi_revisit warcFieldIdentifiers, fi_info warcFieldIdentifiers,
                 fi_mdata warcFieldIdentifiers}"
    by (simp add: junkLine_def warcFieldIdentifiers_def)
  note t = C10_type_checked_once [OF h1 h2 h3 h4, of exampleBuilder, unfolded Let_def]
  from t have a: "\<not> checkRecType (snd (onData warcFieldIdentifiers exampleBuilder junkLine
                                        awaitingSecondType))"
    by blast
  from t h5 have b: "buildKey (snd (onData warcFieldIdentifiers exampleBuilder junkLine
                                     awaitingSecondType)) = None"
    by blast
  from t have d: "buildKey (snd (feed warcFieldIdentifiers exampleBuilder
                    [''x: y'' @ [CR], fi_empty warcFieldIdentifiers]
                    (snd (onData warcFieldIdentifiers exampleBuilder junkLine
                            awaitingSecondType)))) =
               buildKey (snd (onData warcFieldIdentifiers exampleBuilder junkLine
                                awaitingSecondType))"
    by blast
  from d b have c: "buildKey (snd (feed warcFieldIdentifiers exampleBuilder
                    [''x: y'' @ [CR], fi_empty warcFieldIdentifiers]
                    (snd (onData warcFieldIdentifiers exampleBuilder junkLine
                            awaitingSecondType)))) = None"
    by (rule trans)
  from h1 h2 h3 h4 h5 a b c show ?thesis by blast
qed

text \<open>
  The claim as it was written has the key variable keep the key of the record before when
  no sentinel matches. After a request record and the begin line of the next record the
  key is the one of the request record; a type line that matches nothing replaces it by
  \<open>undefined\<close>.
\<close>

theorem C10_stale_key_counterexample:
  "checkRecType awaitingSecondType \<and>
   junkLine \<notin> {fi_req warcFieldIdentifiers, fi_res warcFieldIdentifiers,
                 fi_revisit warcFieldIdentifiers, fi_info warcFieldIdentifiers,
                 fi_mdata warcFieldIdentifiers} \<and>
   junkLine \<noteq> fi_begin warcFieldIdentifiers \<and> junkLine \<noteq> fi_empty warcFieldIdentifiers \<and>
   buildKey awaitingSecondType = Some Request \<and>
   buildKey (snd (onData warcFieldIdentifiers exampleBuilder junkLine awaitingSecondType)) \<noteq>
     buildKey awaitingSecondType"
  by (simp add: awaitingSecondType_def eval_defs)

subsection \<open>A remark on sessions that share a parser\<close>

text \<open>
  \<open>start\<close> does not reset the type-check flag nor the count of blank lines. A session
  that ends right after a begin line leaves the flag set; the next session of the same
  parser then takes its first line for a type line, where a parser fresh from the
  constructor hands it to \<open>addLineTo\<close>.
\<close>

lemma shared_parser_keeps_flag:
  "checkRecType (snd (snd (session warcFieldIdentifiers exampleBuilder
                             [fi_begin warcFieldIdentifiers] freshParser))) \<and>
   fst (snd (session warcFieldIdentifiers exampleBuilder [junkLine]
               (snd (snd (session warcFieldIdentifiers exampleBuilder
                            [fi_begin warcFieldIdentifiers] freshParser))))) =
     [ConsoleLog junkLine, EmitDone emptyRecord] \<and>
   fst (snd (session warcFieldIdentifiers exampleBuilder [junkLine] freshParser)) =
     [EmitDone emptyRecord]"
  by (simp add: eval_defs)

end
